theory Spec2Isabelle
  imports Complex_Main "HOL-Library.Word"
begin

unbundle bit_operations_syntax

section \<open>The wasm front end of mGBA (src/platform/wasm/main.c)\<close>

text \<open>
  The file drives one emulation core from the browser's main loop. Everything it does is
  a mutation of the global \<open>renderer\<close> or a call into the core, SDL or emscripten. The
  model passes the renderer explicitly and keeps, for each core, the list of calls made
  through its function pointers.

  Numbers. \<open>int\<close>, \<open>Sint32\<close> and \<open>Uint32\<close> are 32-bit words: \<open>sint\<close> reads a
  signed one, \<open>unat\<close> an unsigned one, and arithmetic wraps as the wasm \<open>i32\<close>
  instructions do. The \<open>double\<close>s of the run loop are clock readings and sums of
  them: finite, and modelled as exact real numbers, without rounding. The \<open>float\<close>
  that the page hands to \<open>setVolume\<close> can be anything a JavaScript number can be: a
  number, an infinity or NaN. The conversion of a floating-point value that is NaN
  or outside the range of the integer type is undefined in C and has no single
  lowering on wasm; it is an error outcome of the model. Dereferencing the null core
  is the other error outcome.
\<close>

datatype error = NullCore | ConversionOutOfRange

type_synonym cint = "32 word"

subsection \<open>The core, as far as main.c touches it\<close>

datatype core_call =
    Init
  | Reset
  | RunFrame
  | AddKeys cint
  | ClearKeys cint
  | ReloadConfigOption string
  | SetVideoBuffer nat
  | SetAudioBufferSize nat
  | AutoloadSave
  | AutoloadCheats
  | SaveState cint cint
  | LoadState cint cint

record mCore =
  opts_volume :: cint
  opts_frameskip :: cint
  opts_savegamePath :: "string option"
  opts_savestatePath :: "string option"
  opts_cheatsPath :: "string option"
  opts_screenshotPath :: "string option"
  romLoaded :: bool
  config_port :: "string option"
  config_int :: "string \<rightharpoonup> cint"
  config_str :: "string \<rightharpoonup> string"
  inputMap :: "cint \<rightharpoonup> cint"
  baseVideoSize :: "nat \<times> nat"
  currentVideoSize :: "nat \<times> nat"
  calls :: "core_call list"

text \<open>
  What the rest of mGBA decides and main.c only consumes: which core \<open>mCoreFind\<close>
  returns for a file name (none when the file cannot be opened or is of no known
  platform), whether \<open>mCoreLoadFile\<close>, \<open>mCoreSaveState\<close> and \<open>mCoreLoadState\<close>
  succeed, and the default key bindings of \<open>mSDLInitBindingsGBA\<close>.
\<close>

record engine =
  mCoreFind :: "string \<Rightarrow> mCore option"
  mCoreLoadFile :: "string \<Rightarrow> bool"
  mCoreSaveState :: "cint \<Rightarrow> cint \<Rightarrow> bool"
  mCoreLoadState :: "cint \<Rightarrow> cint \<Rightarrow> bool"
  mSDLInitBindingsGBA :: "cint \<rightharpoonup> cint"

definition call :: "core_call \<Rightarrow> mCore \<Rightarrow> mCore" where
  "call f c = c\<lparr>calls := calls c @ [f]\<rparr>"

definition runFrame :: "mCore \<Rightarrow> mCore" where
  "runFrame c = call RunFrame c"

definition mCoreConfigSetDefaultIntValue :: "string \<Rightarrow> cint \<Rightarrow> mCore \<Rightarrow> mCore" where
  "mCoreConfigSetDefaultIntValue key v c = c\<lparr>config_int := (config_int c)(key \<mapsto> v)\<rparr>"

definition mCoreConfigSetDefaultValue :: "string \<Rightarrow> string \<Rightarrow> mCore \<Rightarrow> mCore" where
  "mCoreConfigSetDefaultValue key v c = c\<lparr>config_str := (config_str c)(key \<mapsto> v)\<rparr>"

text \<open>\<open>mCoreConfigGetIntValue\<close> leaves the caller's variable alone when the key is not set.\<close>

definition mCoreConfigGetIntValue :: "mCore \<Rightarrow> string \<Rightarrow> cint \<Rightarrow> cint" where
  "mCoreConfigGetIntValue c key dflt = (case config_int c key of None \<Rightarrow> dflt | Some v \<Rightarrow> v)"

text \<open>
  Modelled from the spec: the core's \<open>ReloadConfigOption(key)\<close> is not part of main.c.
  It is recorded as a call; for the two options main.c reloads, the core copies the
  configured value into its options block, which is where \<open>getVolume\<close> reads it.
\<close>

definition reloadConfigOption :: "string \<Rightarrow> mCore \<Rightarrow> mCore" where
  "reloadConfigOption key c =
     (let c' = call (ReloadConfigOption key) c in
      if key = ''volume'' then c'\<lparr>opts_volume := mCoreConfigGetIntValue c' key (opts_volume c')\<rparr>
      else if key = ''frameskip'' then
        c'\<lparr>opts_frameskip := mCoreConfigGetIntValue c' key (opts_frameskip c')\<rparr>
      else c')"

text \<open>\<open>mInputMapKey\<close> answers -1 for a key that is not bound.\<close>

definition mInputMapKey :: "mCore \<Rightarrow> cint \<Rightarrow> cint" where
  "mInputMapKey c keysym = (case inputMap c keysym of None \<Rightarrow> - 1 | Some k \<Rightarrow> k)"

text \<open>\<open>1 << key\<close> on a 32-bit \<open>int\<close>; wasm takes the shift count modulo 32.\<close>

definition key_bit :: "cint \<Rightarrow> cint" where
  "key_bit key = push_bit (unat key mod 32) 1"

subsection \<open>The renderer\<close>

record mSDLAudio =
  sampleRate :: nat
  samples :: nat
  fpsTarget :: real
  audioCore :: bool
  audioPaused :: bool

record mEmscriptenRenderer =
  core :: "mCore option"
  audio :: mSDLAudio
  renderFirstFrame :: bool
  fastForwardSpeed :: cint
  lastLoopTime :: real
  frameTime :: real
  sdlTex :: "(nat \<times> nat) option"
  windowSize :: "nat \<times> nat"
  canvasSize :: "nat \<times> nat"
  presented :: "(nat \<times> nat) list"
  mainLoopPaused :: bool

definition mSDLPauseAudio :: "mSDLAudio \<Rightarrow> mSDLAudio" where
  "mSDLPauseAudio a = a\<lparr>audioPaused := True\<rparr>"

definition mSDLResumeAudio :: "mSDLAudio \<Rightarrow> mSDLAudio" where
  "mSDLResumeAudio a = a\<lparr>audioPaused := False\<rparr>"

text \<open>
  The static initialiser of \<open>renderer\<close> followed by \<open>main\<close>: no core, an audio device
  that SDL opens paused, a 240 x 160 window, both clocks at zero and the main loop
  installed.
\<close>

definition main :: mEmscriptenRenderer where
  "main = \<lparr> core = None,
            audio = \<lparr> sampleRate = 48000, samples = 4096, fpsTarget = 60,
                      audioCore = False, audioPaused = True \<rparr>,
            renderFirstFrame = True,
            fastForwardSpeed = 1,
            lastLoopTime = 0,
            frameTime = 0,
            sdlTex = None,
            windowSize = (240, 160),
            canvasSize = (240, 160),
            presented = [],
            mainLoopPaused = False \<rparr>"

subsection \<open>Key events\<close>

record SDL_KeyboardEvent =
  etype :: "32 word"
  keysym_sym :: cint
  keysym_mod :: "16 word"

text \<open>The event types, the key code of \<open>f\<close> and the modifier bits, as SDL2 numbers them.\<close>

definition SDL_KEYDOWN :: "32 word" where "SDL_KEYDOWN = 0x300"
definition SDL_KEYUP :: "32 word" where "SDL_KEYUP = 0x301"
definition SDLK_f :: cint where "SDLK_f = 102"
definition KMOD_NUM :: "16 word" where "KMOD_NUM = 0x1000"
definition KMOD_CAPS :: "16 word" where "KMOD_CAPS = 0x2000"
definition KMOD_LCTRL :: "16 word" where "KMOD_LCTRL = 0x0040"

definition handleKeypressCore ::
  "SDL_KeyboardEvent \<Rightarrow> mEmscriptenRenderer \<Rightarrow> error + mEmscriptenRenderer" where
  "handleKeypressCore event s =
     (if keysym_sym event = SDLK_f
      then Inr (s\<lparr>fastForwardSpeed := (if etype event = SDL_KEYDOWN then 2 else 1)\<rparr>)
      else if keysym_mod event AND NOT (KMOD_NUM OR KMOD_CAPS) = 0
      then (case core s of
              None \<Rightarrow> Inl NullCore
            | Some c \<Rightarrow>
                (let key = mInputMapKey c (keysym_sym event) in
                 if key \<noteq> - 1
                 then (if etype event = SDL_KEYDOWN
                       then Inr (s\<lparr>core := Some (call (AddKeys (key_bit key)) c)\<rparr>)
                       else Inr (s\<lparr>core := Some (call (ClearKeys (key_bit key)) c)\<rparr>))
                 else Inr s))
      else Inr s)"

subsection \<open>The run loop\<close>

text \<open>The events that \<open>SDL_PollEvent\<close> hands out during one call of \<open>runLoop\<close>.\<close>

fun pollEvents ::
  "SDL_KeyboardEvent list \<Rightarrow> mEmscriptenRenderer \<Rightarrow> error + mEmscriptenRenderer" where
  "pollEvents [] s = Inr s"
| "pollEvents (event # events) s =
     (if (etype event = SDL_KEYDOWN \<or> etype event = SDL_KEYUP) \<and> core s \<noteq> None
      then (case handleKeypressCore event s of
              Inl e \<Rightarrow> Inl e
            | Inr s' \<Rightarrow> pollEvents events s')
      else pollEvents events s)"

definition targetFrameTime :: real where
  "targetFrameTime = 1000 / 60"

text \<open>
  \<open>Sint32 nowFramesInt = numberOfFrames\<close>: the fraction is dropped (towards zero); the
  result is defined only when it fits.
\<close>

definition truncation :: "real \<Rightarrow> int" where
  "truncation x = (if 0 \<le> x then \<lfloor>x\<rfloor> else \<lceil>x\<rceil>)"

definition double_to_Sint32 :: "real \<Rightarrow> cint option" where
  "double_to_Sint32 x =
     (if - (2 ^ 31) \<le> truncation x \<and> truncation x < 2 ^ 31
      then Some (word_of_int (truncation x)) else None)"

text \<open>\<open>for (Uint32 i = 0; i < nowFramesInt; i++) runFrame\<close>, by the number of rounds.\<close>

primrec runFrames :: "nat \<Rightarrow> mCore \<Rightarrow> mCore" where
  "runFrames 0 c = c"
| "runFrames (Suc k) c = runFrames k (runFrame c)"

text \<open>
  The tail of \<open>runLoop\<close>: present the texture at the core's current size, lock it again
  and hand the buffer back to the core, the stride counted in pixels.
\<close>

definition presentFrame :: "mCore \<Rightarrow> mEmscriptenRenderer \<Rightarrow> mEmscriptenRenderer" where
  "presentFrame c s =
     (let stride = (case sdlTex s of None \<Rightarrow> 0 | Some (w, h) \<Rightarrow> w) in
      s\<lparr>presented := presented s @ [currentVideoSize c],
        core := Some (call (SetVideoBuffer stride) c)\<rparr>)"

text \<open>
  \<open>runLoop\<close>, given the pending events and the reading of \<open>emscripten_get_now\<close>.
  \<open>nowFramesInt *= fastForwardSpeed\<close> is the product of two 32-bit words and wraps;
  the two tests \<open>< 1\<close> and \<open>> 20\<close> are signed, the bound of the frame loop is read
  unsigned.
\<close>

definition runLoop ::
  "SDL_KeyboardEvent list \<Rightarrow> real \<Rightarrow> mEmscriptenRenderer \<Rightarrow> error + mEmscriptenRenderer" where
  "runLoop events now s0 =
     (case pollEvents events s0 of
        Inl e \<Rightarrow> Inl e
      | Inr s \<Rightarrow>
         (case core s of
            None \<Rightarrow> Inr (s\<lparr>renderFirstFrame := True, mainLoopPaused := True\<rparr>)
          | Some c \<Rightarrow>
             (let elapsed = now - lastLoopTime s;
                  s1 = s\<lparr>lastLoopTime := now, frameTime := frameTime s + elapsed\<rparr>;
                  numberOfFrames = (frameTime s1 + 0.2) / targetFrameTime
              in case double_to_Sint32 numberOfFrames of
                   None \<Rightarrow> Inl ConversionOutOfRange
                 | Some nowFramesInt \<Rightarrow>
                    if nowFramesInt <s 1 then Inr s1
                    else
                      (let t = frameTime s1 - real_of_int (sint nowFramesInt) * targetFrameTime;
                           s2 = s1\<lparr>frameTime := (if t < 0 then 0 else t)\<rparr>;
                           n1 = (if 1 <s fastForwardSpeed s2
                                 then nowFramesInt * fastForwardSpeed s2 else nowFramesInt);
                           n2 = (if 20 <s n1 then 20 else n1)
                       in if renderFirstFrame s2
                          then Inr (presentFrame (runFrame c) (s2\<lparr>renderFirstFrame := False\<rparr>))
                          else Inr (presentFrame (runFrames (unat n2) c) s2)))))"

subsection \<open>The exported functions\<close>

definition buttonPress :: "cint \<Rightarrow> mEmscriptenRenderer \<Rightarrow> mEmscriptenRenderer" where
  "buttonPress ident s =
     (case core s of
        None \<Rightarrow> s
      | Some c \<Rightarrow> s\<lparr>core := Some (call (AddKeys (key_bit ident)) c)\<rparr>)"

definition buttonUnpress :: "cint \<Rightarrow> mEmscriptenRenderer \<Rightarrow> mEmscriptenRenderer" where
  "buttonUnpress ident s =
     (case core s of
        None \<Rightarrow> s
      | Some c \<Rightarrow> s\<lparr>core := Some (call (ClearKeys (key_bit ident)) c)\<rparr>)"

text \<open>
  The argument of \<open>setVolume\<close>. An ordered comparison with NaN is false, whichever
  way it is asked; the infinities compare as they should. Multiplying by \<open>0x100\<close>, a
  power of two, is exact on the values that pass the range test.
\<close>

datatype cfloat = Finite real | PlusInfinity | MinusInfinity | NaN

definition float_gt :: "cfloat \<Rightarrow> real \<Rightarrow> bool" where
  "float_gt x r = (case x of Finite v \<Rightarrow> v > r | PlusInfinity \<Rightarrow> True
                   | MinusInfinity \<Rightarrow> False | NaN \<Rightarrow> False)"

definition float_lt :: "cfloat \<Rightarrow> real \<Rightarrow> bool" where
  "float_lt x r = (case x of Finite v \<Rightarrow> v < r | PlusInfinity \<Rightarrow> False
                   | MinusInfinity \<Rightarrow> True | NaN \<Rightarrow> False)"

definition float_times_0x100 :: "cfloat \<Rightarrow> cfloat" where
  "float_times_0x100 x = (case x of Finite v \<Rightarrow> Finite (v * 0x100) | PlusInfinity \<Rightarrow> PlusInfinity
                          | MinusInfinity \<Rightarrow> MinusInfinity | NaN \<Rightarrow> NaN)"

text \<open>\<open>(int) x\<close>: defined for a number whose integer part fits, and for nothing else.\<close>

definition float_to_int :: "cfloat \<Rightarrow> cint option" where
  "float_to_int x = (case x of Finite v \<Rightarrow> double_to_Sint32 v | PlusInfinity \<Rightarrow> None
                     | MinusInfinity \<Rightarrow> None | NaN \<Rightarrow> None)"

text \<open>
  \<open>setVolume\<close> in two parts: the range test with the conversion, and the statements
  that follow it, which work on the converted \<open>volume\<close>. NaN is not greater than 2.0
  and not less than 0, so it passes the test and reaches the conversion.
\<close>

definition applyVolume :: "cint \<Rightarrow> mEmscriptenRenderer \<Rightarrow> mEmscriptenRenderer" where
  "applyVolume volume s =
     (case core s of
        None \<Rightarrow> s
      | Some c \<Rightarrow>
          s\<lparr>audio := (if volume = 0 then mSDLPauseAudio (audio s)
                       else mSDLResumeAudio (audio s)),
            core := Some (reloadConfigOption ''volume''
                            (mCoreConfigSetDefaultIntValue ''volume'' volume c))\<rparr>)"

definition setVolume :: "cfloat \<Rightarrow> mEmscriptenRenderer \<Rightarrow> error + mEmscriptenRenderer" where
  "setVolume vol s =
     (if float_gt vol 2 \<or> float_lt vol 0 then Inr s
      else
        (case float_to_int (float_times_0x100 vol) of
           None \<Rightarrow> Inl ConversionOutOfRange
         | Some volume \<Rightarrow> Inr (applyVolume volume s)))"

definition getVolume :: "mEmscriptenRenderer \<Rightarrow> error + real" where
  "getVolume s =
     (case core s of
        None \<Rightarrow> Inl NullCore
      | Some c \<Rightarrow> Inr (real_of_int (sint (opts_volume c)) / 0x100))"

definition setFastForwardMultiplier ::
  "cint \<Rightarrow> mEmscriptenRenderer \<Rightarrow> error + mEmscriptenRenderer" where
  "setFastForwardMultiplier multiplier s =
     (if 0 <s multiplier
      then
        (let s1 = s\<lparr>fastForwardSpeed := multiplier,
                    audio := (audio s)\<lparr>fpsTarget := 60 * real_of_int (sint multiplier)\<rparr>\<rparr>
         in case core s1 of
              None \<Rightarrow> Inl NullCore
            | Some c \<Rightarrow>
                Inr (s1\<lparr>core := Some (reloadConfigOption ''frameskip''
                                        (mCoreConfigSetDefaultIntValue ''frameskip''
                                           (multiplier - 1) c))\<rparr>))
      else Inr s)"

definition getFastForwardMultiplier :: "mEmscriptenRenderer \<Rightarrow> cint" where
  "getFastForwardMultiplier s = fastForwardSpeed s"

definition quitGame :: "mEmscriptenRenderer \<Rightarrow> mEmscriptenRenderer" where
  "quitGame s =
     (case core s of
        None \<Rightarrow> s
      | Some c \<Rightarrow>
          s\<lparr>renderFirstFrame := True,
            audio := mSDLPauseAudio (audio s),
            mainLoopPaused := True,
            core := None\<rparr>)"

definition quickReload :: "mEmscriptenRenderer \<Rightarrow> error + mEmscriptenRenderer" where
  "quickReload s =
     (let s1 = s\<lparr>renderFirstFrame := True\<rparr> in
      case core s1 of
        None \<Rightarrow> Inl NullCore
      | Some c \<Rightarrow> Inr (s1\<lparr>core := Some (call Reset c)\<rparr>))"

definition pauseGame :: "mEmscriptenRenderer \<Rightarrow> mEmscriptenRenderer" where
  "pauseGame s =
     s\<lparr>renderFirstFrame := True,
       audio := mSDLPauseAudio (audio s),
       mainLoopPaused := True\<rparr>"

definition resumeGame :: "mEmscriptenRenderer \<Rightarrow> error + mEmscriptenRenderer" where
  "resumeGame s =
     (case core s of
        None \<Rightarrow> Inl NullCore
      | Some c \<Rightarrow>
          (let vol = mCoreConfigGetIntValue c ''volume'' (- 1) in
           Inr (s\<lparr>audio := (if 0 <s vol then mSDLResumeAudio (audio s) else audio s),
                  mainLoopPaused := False\<rparr>)))"

text \<open>\<open>SAVESTATE_ALL\<close> is a flag set of the core's headers; only its being passed on matters.\<close>

definition SAVESTATE_ALL :: cint where
  "SAVESTATE_ALL = 31"

definition saveState ::
  "engine \<Rightarrow> cint \<Rightarrow> mEmscriptenRenderer \<Rightarrow> bool \<times> mEmscriptenRenderer" where
  "saveState eng slot s =
     (case core s of
        None \<Rightarrow> (False, s)
      | Some c \<Rightarrow>
          (mCoreSaveState eng slot SAVESTATE_ALL,
           s\<lparr>core := Some (call (SaveState slot SAVESTATE_ALL) c)\<rparr>))"

definition loadState ::
  "engine \<Rightarrow> cint \<Rightarrow> mEmscriptenRenderer \<Rightarrow> bool \<times> mEmscriptenRenderer" where
  "loadState eng slot s =
     (case core s of
        None \<Rightarrow> (False, s)
      | Some c \<Rightarrow>
          (mCoreLoadState eng slot SAVESTATE_ALL,
           s\<lparr>core := Some (call (LoadState slot SAVESTATE_ALL) c)\<rparr>))"

text \<open>
  \<open>loadGame\<close>. The core of a session that is being replaced is deinitialised and dropped
  first. After the null check nothing is checked any more: the results of
  \<open>mCoreLoadFile\<close> and of the two autoloads are thrown away.
\<close>

definition setupCore :: "engine \<Rightarrow> string \<Rightarrow> mCore \<Rightarrow> mCore" where
  "setupCore eng name c0 =
     (let c1 = call Init c0;
          c2 = c1\<lparr>opts_savegamePath := Some ''/data/saves'',
                  opts_savestatePath := Some ''/data/states'',
                  opts_cheatsPath := Some ''/data/cheats'',
                  opts_screenshotPath := Some ''/data/screenshots''\<rparr>;
          c3 = c2\<lparr>romLoaded := mCoreLoadFile eng name\<rparr>;
          c4 = c3\<lparr>config_port := Some ''wasm'', config_int := Map.empty,
                  config_str := Map.empty\<rparr>;
          c5 = mCoreConfigSetDefaultValue ''idleOptimization'' ''detect'' c4;
          c6 = mCoreConfigSetDefaultIntValue ''volume'' 0x100 c5;
          c7 = c6\<lparr>inputMap := Map.empty\<rparr>;
          c8 = call AutoloadCheats (call AutoloadSave c7)
      in c8\<lparr>inputMap := mSDLInitBindingsGBA eng\<rparr>)"

definition loadGame ::
  "engine \<Rightarrow> string \<Rightarrow> mEmscriptenRenderer \<Rightarrow> bool \<times> mEmscriptenRenderer" where
  "loadGame eng name s =
     (case mCoreFind eng name of
        None \<Rightarrow> (False, s\<lparr>core := None\<rparr>)
      | Some c0 \<Rightarrow>
          (let c1 = setupCore eng name c0;
               (w, h) = baseVideoSize c1;
               c2 = call (SetVideoBuffer w) c1;
               c3 = call (SetAudioBufferSize (samples (audio s) * 2)) c2;
               c4 = call Reset c3
           in (True,
               s\<lparr>core := Some c4,
                 sdlTex := Some (w, h),
                 windowSize := currentVideoSize c4,
                 canvasSize := currentVideoSize c4,
                 audio := mSDLResumeAudio ((audio s)\<lparr>audioCore := True\<rparr>),
                 mainLoopPaused := False\<rparr>)))"

subsection \<open>Counting frames\<close>

definition frameCalls :: "mCore \<Rightarrow> nat" where
  "frameCalls c = length (filter (\<lambda>f. f = RunFrame) (calls c))"

definition framesRun :: "mEmscriptenRenderer \<Rightarrow> nat" where
  "framesRun s = (case core s of None \<Rightarrow> 0 | Some c \<Rightarrow> frameCalls c)"

subsection \<open>The host\<close>

text \<open>
  The page calls the exported functions one after the other, and the emscripten main loop
  calls \<open>runLoop\<close> with the events that are due and the reading of the clock, unless
  the loop is paused.
\<close>

datatype operation =
    LoadGame string
  | QuitGame
  | QuickReload
  | PauseGame
  | ResumeGame
  | ButtonPress cint
  | ButtonUnpress cint
  | SetVolume cfloat
  | SetFastForwardMultiplier cint
  | SaveStateSlot cint
  | LoadStateSlot cint
  | Tick "SDL_KeyboardEvent list" real

fun perform :: "engine \<Rightarrow> operation \<Rightarrow> mEmscriptenRenderer \<Rightarrow> error + mEmscriptenRenderer" where
  "perform eng (LoadGame name) s = Inr (snd (loadGame eng name s))"
| "perform eng QuitGame s = Inr (quitGame s)"
| "perform eng QuickReload s = quickReload s"
| "perform eng PauseGame s = Inr (pauseGame s)"
| "perform eng ResumeGame s = resumeGame s"
| "perform eng (ButtonPress ident) s = Inr (buttonPress ident s)"
| "perform eng (ButtonUnpress ident) s = Inr (buttonUnpress ident s)"
| "perform eng (SetVolume vol) s = setVolume vol s"
| "perform eng (SetFastForwardMultiplier m) s = setFastForwardMultiplier m s"
| "perform eng (SaveStateSlot slot) s = Inr (snd (saveState eng slot s))"
| "perform eng (LoadStateSlot slot) s = Inr (snd (loadState eng slot s))"
| "perform eng (Tick events now) s =
     (if mainLoopPaused s then Inr s else runLoop events now s)"

fun perform_all ::
  "engine \<Rightarrow> operation list \<Rightarrow> mEmscriptenRenderer \<Rightarrow> error + mEmscriptenRenderer" where
  "perform_all eng [] s = Inr s"
| "perform_all eng (x # xs) s =
     (case perform eng x s of Inl e \<Rightarrow> Inl e | Inr s' \<Rightarrow> perform_all eng xs s')"

text \<open>Whether a key event of the fast-forward key is among the events of a tick.\<close>

definition pressesF :: "operation \<Rightarrow> bool" where
  "pressesF x = (case x of Tick events now \<Rightarrow> list_ex (\<lambda>e. keysym_sym e = SDLK_f) events
                 | _ \<Rightarrow> False)"

subsection \<open>A concrete engine\<close>

text \<open>
  A core as \<open>mCoreFind\<close> hands it out, zeroed but for the size of the GBA screen, and an
  engine that knows one file, \<open>rom.gba\<close>. A second engine finds the core for that file
  but then fails to load it.
\<close>

definition gbaCore :: mCore where
  "gbaCore = \<lparr> opts_volume = 0, opts_frameskip = 0,
               opts_savegamePath = None, opts_savestatePath = None,
               opts_cheatsPath = None, opts_screenshotPath = None,
               romLoaded = False, config_port = None,
               config_int = Map.empty, config_str = Map.empty, inputMap = Map.empty,
               baseVideoSize = (240, 160), currentVideoSize = (240, 160), calls = [] \<rparr>"

definition gbaEngine :: engine where
  "gbaEngine = \<lparr> mCoreFind = (\<lambda>name. if name = ''rom.gba'' then Some gbaCore else None),
                 mCoreLoadFile = (\<lambda>name. name = ''rom.gba''),
                 mCoreSaveState = (\<lambda>slot flags. True),
                 mCoreLoadState = (\<lambda>slot flags. True),
                 mSDLInitBindingsGBA = [120 \<mapsto> 0, 122 \<mapsto> 1] \<rparr>"

definition brokenImageEngine :: engine where
  "brokenImageEngine = gbaEngine\<lparr>mCoreLoadFile := (\<lambda>name. False)\<rparr>"

definition afterLoad :: mEmscriptenRenderer where
  "afterLoad = snd (loadGame gbaEngine ''rom.gba'' main)"

text \<open>The same session with the volume at one half, 0x80.\<close>

definition atHalfVolume :: mEmscriptenRenderer where
  "atHalfVolume = applyVolume 0x80 afterLoad"

subsection \<open>Quantities of one tick\<close>

text \<open>
  The value that the local variable \<open>numberOfFrames\<close> of \<open>runLoop\<close> takes when the clock
  reads \<open>now\<close>, and the part of the renderer that the event loop of \<open>runLoop\<close> cannot
  change.
\<close>

definition numberOfFrames :: "real \<Rightarrow> mEmscriptenRenderer \<Rightarrow> real" where
  "numberOfFrames now s = (frameTime s + (now - lastLoopTime s) + 0.2) / targetFrameTime"

definition sameTiming :: "mEmscriptenRenderer \<Rightarrow> mEmscriptenRenderer \<Rightarrow> bool" where
  "sameTiming s s' \<longleftrightarrow>
     (core s' = None \<longleftrightarrow> core s = None) \<and> frameTime s' = frameTime s
     \<and> lastLoopTime s' = lastLoopTime s \<and> renderFirstFrame s' = renderFirstFrame s
     \<and> framesRun s' = framesRun s"

section \<open>The frame loop and the conversion\<close>

lemma runFrames_calls: "runFrames n c = c\<lparr>calls := calls c @ replicate n RunFrame\<rparr>"
proof (induction n arbitrary: c)
  case 0
  show ?case by simp
next
  case (Suc n)
  show ?case
    by (simp add: Suc.IH runFrame_def call_def replicate_app_Cons_same)
qed

lemma frameCalls_replicate:
  "length (filter (\<lambda>f. f = RunFrame) (replicate n RunFrame)) = n"
  by (induction n) simp_all

lemma frameCalls_call: "frameCalls (call f c) = frameCalls c + (if f = RunFrame then 1 else 0)"
  by (simp add: frameCalls_def call_def)

lemma frameCalls_runFrames: "frameCalls (runFrames n c) = frameCalls c + n"
  by (simp add: frameCalls_def runFrames_calls frameCalls_replicate)

lemma frameCalls_runFrame: "frameCalls (runFrame c) = frameCalls c + 1"
  by (simp add: runFrame_def frameCalls_call)

lemma double_to_Sint32_sint:
  assumes "double_to_Sint32 x = Some n"
  shows "sint n = truncation x"
proof -
  from assms have lo: "- (2 ^ 31) \<le> truncation x" and hi: "truncation x < 2 ^ 31"
    and n: "n = word_of_int (truncation x)"
    by (auto simp: double_to_Sint32_def split: if_splits)
  show ?thesis
    unfolding n using lo hi by (simp add: sint_sbintrunc' signed_take_bit_int_eq_self)
qed

lemma truncation_bounds: "\<bar>x\<bar> < 2 ^ 31 \<Longrightarrow> - (2 ^ 31) \<le> truncation x \<and> truncation x < 2 ^ 31"
  unfolding truncation_def
  by (auto simp: floor_less_iff le_ceiling_iff abs_less_iff intro: order_trans)

lemma double_to_Sint32_defined:
  "\<bar>x\<bar> < 2 ^ 31 \<Longrightarrow> \<exists>n. double_to_Sint32 x = Some n"
  using truncation_bounds [of x] by (simp add: double_to_Sint32_def)

lemma handleKeypressCore_returns:
  "core s \<noteq> None \<Longrightarrow> \<exists>s'. handleKeypressCore ev s = Inr s'"
  by (cases "core s") (simp_all add: handleKeypressCore_def Let_def)

lemma sameTiming_refl: "sameTiming s s"
  by (simp add: sameTiming_def)

lemma sameTiming_trans: "sameTiming s s1 \<Longrightarrow> sameTiming s1 s2 \<Longrightarrow> sameTiming s s2"
  by (simp add: sameTiming_def)

lemma handleKeypressCore_sameTiming:
  assumes "handleKeypressCore ev s = Inr s'"
  shows "sameTiming s s'"
proof (cases "core s")
  case None
  with assms show ?thesis
    by (auto simp: handleKeypressCore_def sameTiming_def framesRun_def split: if_splits)
next
  case (Some c)
  with assms show ?thesis
    by (auto simp: handleKeypressCore_def sameTiming_def Let_def framesRun_def frameCalls_call
        split: if_splits)
qed

lemma handleKeypressCore_speed:
  assumes "handleKeypressCore ev s = Inr s'" and "keysym_sym ev \<noteq> SDLK_f"
  shows "fastForwardSpeed s' = fastForwardSpeed s"
  using assms
  by (cases "core s") (auto simp: handleKeypressCore_def Let_def split: if_splits)

lemma pollEvents_key:
  assumes "(etype ev = SDL_KEYDOWN \<or> etype ev = SDL_KEYUP) \<and> core s \<noteq> None"
    and "handleKeypressCore ev s = Inr s1"
  shows "pollEvents (ev # events) s = pollEvents events s1"
  using assms by simp

lemma pollEvents_skip:
  assumes "\<not> ((etype ev = SDL_KEYDOWN \<or> etype ev = SDL_KEYUP) \<and> core s \<noteq> None)"
  shows "pollEvents (ev # events) s = pollEvents events s"
  unfolding pollEvents.simps using assms by (rule if_not_P)

lemma pollEvents_returns: "\<exists>s'. pollEvents events s = Inr s'"
proof (induction events arbitrary: s)
  case Nil
  show ?case by simp
next
  case (Cons ev events)
  show ?case
  proof (cases "(etype ev = SDL_KEYDOWN \<or> etype ev = SDL_KEYUP) \<and> core s \<noteq> None")
    case True
    then obtain s1 where "handleKeypressCore ev s = Inr s1"
      using handleKeypressCore_returns [of s ev] by blast
    then have "pollEvents (ev # events) s = pollEvents events s1"
      by (rule pollEvents_key [OF True])
    with Cons.IH [of s1] show ?thesis by simp
  next
    case False
    then have "pollEvents (ev # events) s = pollEvents events s"
      by (rule pollEvents_skip)
    with Cons.IH [of s] show ?thesis by simp
  qed
qed

lemma pollEvents_sameTiming:
  "pollEvents events s = Inr s' \<Longrightarrow> sameTiming s s'"
proof (induction events arbitrary: s)
  case Nil
  then show ?case by (simp add: sameTiming_refl)
next
  case (Cons ev events)
  show ?case
  proof (cases "(etype ev = SDL_KEYDOWN \<or> etype ev = SDL_KEYUP) \<and> core s \<noteq> None")
    case True
    then obtain s1 where h: "handleKeypressCore ev s = Inr s1"
      using handleKeypressCore_returns [of s ev] by blast
    with Cons.prems have "pollEvents events s1 = Inr s'"
      using pollEvents_key [OF True h, of events] by simp
    then have "sameTiming s1 s'" by (rule Cons.IH)
    with handleKeypressCore_sameTiming [OF h] show ?thesis by (rule sameTiming_trans)
  next
    case False
    with Cons.prems have "pollEvents events s = Inr s'"
      using pollEvents_skip [OF False, of events] by simp
    then show ?thesis by (rule Cons.IH)
  qed
qed

lemma pollEvents_speed:
  "pollEvents events s = Inr s' \<Longrightarrow> \<not> list_ex (\<lambda>e. keysym_sym e = SDLK_f) events
     \<Longrightarrow> fastForwardSpeed s' = fastForwardSpeed s"
proof (induction events arbitrary: s)
  case Nil
  then show ?case by simp
next
  case (Cons ev events)
  from Cons.prems(2) have nf: "keysym_sym ev \<noteq> SDLK_f"
    and rest: "\<not> list_ex (\<lambda>e. keysym_sym e = SDLK_f) events" by simp_all
  show ?case
  proof (cases "(etype ev = SDL_KEYDOWN \<or> etype ev = SDL_KEYUP) \<and> core s \<noteq> None")
    case True
    then obtain s1 where h: "handleKeypressCore ev s = Inr s1"
      using handleKeypressCore_returns [of s ev] by blast
    with Cons.prems(1) have "pollEvents events s1 = Inr s'"
      using pollEvents_key [OF True h, of events] by simp
    then have "fastForwardSpeed s' = fastForwardSpeed s1" using rest by (rule Cons.IH)
    with handleKeypressCore_speed [OF h nf] show ?thesis by simp
  next
    case False
    with Cons.prems(1) have "pollEvents events s = Inr s'"
      using pollEvents_skip [OF False, of events] by simp
    then show ?thesis using rest by (rule Cons.IH)
  qed
qed


lemma truncation_ge_1:
  assumes "1 \<le> truncation q"
  shows "real_of_int (truncation q) \<le> q \<and> q < real_of_int (truncation q) + 1"
proof -
  have "0 \<le> q"
  proof (rule ccontr)
    assume "\<not> 0 \<le> q"
    then have "q \<le> 0" by simp
    then have "\<lceil>q\<rceil> \<le> 0" by (simp add: ceiling_le_iff)
    with \<open>\<not> 0 \<le> q\<close> assms show False by (simp add: truncation_def)
  qed
  then have "truncation q = \<lfloor>q\<rfloor>" by (simp add: truncation_def)
  then show ?thesis by simp
qed

lemma truncation_less_1:
  assumes "truncation q < 1"
  shows "q < 1"
proof (cases "0 \<le> q")
  case True
  with assms have "\<lfloor>q\<rfloor> < 1" by (simp add: truncation_def)
  then show ?thesis by (simp add: floor_less_iff)
next
  case False
  then show ?thesis by simp
qed

lemma accumulator_after_frames:
  assumes "1 \<le> truncation ((x + 0.2) / targetFrameTime)"
  defines "t \<equiv> x - real_of_int (truncation ((x + 0.2) / targetFrameTime)) * targetFrameTime"
  shows "- 0.2 \<le> t \<and> t < targetFrameTime - 0.2"
proof -
  let ?k = "real_of_int (truncation ((x + 0.2) / targetFrameTime))"
  have T: "0 < targetFrameTime" by (simp add: targetFrameTime_def)
  from truncation_ge_1 [OF assms(1)]
  have lo: "?k \<le> (x + 0.2) / targetFrameTime" and hi: "(x + 0.2) / targetFrameTime < ?k + 1"
    by simp_all
  from lo T have "?k * targetFrameTime \<le> x + 0.2" by (simp add: pos_le_divide_eq)
  moreover from hi T have "x + 0.2 < (?k + 1) * targetFrameTime" by (simp add: pos_divide_less_eq)
  ultimately show ?thesis unfolding t_def by (simp add: algebra_simps)
qed

lemma accumulator_idle:
  assumes "truncation ((x + 0.2) / targetFrameTime) < 1"
  shows "x < targetFrameTime - 0.2"
proof -
  have T: "0 < targetFrameTime" by (simp add: targetFrameTime_def)
  from truncation_less_1 [OF assms] have "(x + 0.2) / targetFrameTime < 1" .
  with T have "x + 0.2 < targetFrameTime" by (simp add: pos_divide_less_eq)
  then show ?thesis by simp
qed

lemma presentFrame_simps:
  "frameTime (presentFrame c s) = frameTime s"
  "renderFirstFrame (presentFrame c s) = renderFirstFrame s"
  "framesRun (presentFrame c s) = frameCalls c"
  "lastLoopTime (presentFrame c s) = lastLoopTime s"
  "fastForwardSpeed (presentFrame c s) = fastForwardSpeed s"
  by (simp_all add: presentFrame_def Let_def framesRun_def frameCalls_call)

lemma runLoop_unloaded:
  assumes "core s = None"
  shows "\<exists>s1. runLoop events now s = Inr (s1\<lparr>renderFirstFrame := True, mainLoopPaused := True\<rparr>)
            \<and> sameTiming s s1"
proof -
  from pollEvents_returns obtain s1 where p: "pollEvents events s = Inr s1" by blast
  from pollEvents_sameTiming [OF p] assms have "core s1 = None" by (simp add: sameTiming_def)
  with p have "runLoop events now s = Inr (s1\<lparr>renderFirstFrame := True, mainLoopPaused := True\<rparr>)"
    by (simp add: runLoop_def)
  with pollEvents_sameTiming [OF p] show ?thesis by blast
qed

lemma runLoop_idle:
  assumes "pollEvents events s0 = Inr s" and "core s = Some c"
    and "double_to_Sint32 ((frameTime s + (now - lastLoopTime s) + 0.2) / targetFrameTime) = Some n"
    and "sint n < 1"
  shows "runLoop events now s0 =
           Inr (s\<lparr>lastLoopTime := now, frameTime := frameTime s + (now - lastLoopTime s)\<rparr>)"
  using assms by (simp add: runLoop_def Let_def word_sless_alt)

lemma runLoop_first:
  assumes "pollEvents events s0 = Inr s" and "core s = Some c"
    and "double_to_Sint32 ((frameTime s + (now - lastLoopTime s) + 0.2) / targetFrameTime) = Some n"
    and "1 \<le> sint n" and "renderFirstFrame s"
  shows "\<exists>s'. runLoop events now s0 = Inr s' \<and> framesRun s' = frameCalls c + 1
           \<and> \<not> renderFirstFrame s'
           \<and> frameTime s' = max 0 (frameTime s + (now - lastLoopTime s)
                                      - real_of_int (sint n) * targetFrameTime)"
  using assms
  by (simp add: runLoop_def Let_def word_sless_alt presentFrame_simps frameCalls_runFrame max_def)

lemma runLoop_later:
  assumes "pollEvents events s0 = Inr s" and "core s = Some c"
    and "double_to_Sint32 ((frameTime s + (now - lastLoopTime s) + 0.2) / targetFrameTime) = Some n"
    and "1 \<le> sint n" and "\<not> renderFirstFrame s"
  shows "\<exists>s'. runLoop events now s0 = Inr s'
           \<and> framesRun s' = frameCalls c +
                unat (let n1 = (if 1 <s fastForwardSpeed s then n * fastForwardSpeed s else n)
                      in if 20 <s n1 then 20 else n1)
           \<and> \<not> renderFirstFrame s'
           \<and> frameTime s' = max 0 (frameTime s + (now - lastLoopTime s)
                                      - real_of_int (sint n) * targetFrameTime)"
  using assms
  by (simp add: runLoop_def Let_def word_sless_alt presentFrame_simps frameCalls_runFrames max_def)

lemma framesRun_timing [simp]:
  "framesRun (s\<lparr>lastLoopTime := a, frameTime := b\<rparr>) = framesRun s"
  by (simp add: framesRun_def)

lemma one_le_truncation_iff: "1 \<le> truncation q \<longleftrightarrow> 1 \<le> q"
proof (cases "0 \<le> q")
  case True
  then show ?thesis by (simp add: truncation_def le_floor_iff)
next
  case False
  then have "\<lceil>q\<rceil> \<le> 0" by (simp add: ceiling_le_iff)
  with False show ?thesis by (simp add: truncation_def)
qed

text \<open>What a tick does to the accumulator and to the number of frames, loaded core.\<close>

lemma runLoop_loaded:
  assumes loaded: "core s \<noteq> None"
    and range: "\<bar>numberOfFrames now s\<bar> < 2 ^ 31"
  shows "\<exists>s' s1 n. runLoop events now s = Inr s' \<and> pollEvents events s = Inr s1
           \<and> sint n = truncation (numberOfFrames now s)
           \<and> (numberOfFrames now s < 1 \<longrightarrow>
                  framesRun s' = framesRun s \<and> renderFirstFrame s' = renderFirstFrame s
                  \<and> frameTime s' = frameTime s + (now - lastLoopTime s))
           \<and> (\<not> numberOfFrames now s < 1 \<longrightarrow>
                  \<not> renderFirstFrame s'
                  \<and> frameTime s' = max 0 (frameTime s + (now - lastLoopTime s)
                                             - real_of_int (sint n) * targetFrameTime)
                  \<and> framesRun s' = framesRun s +
                      (if renderFirstFrame s then 1
                       else unat (let n1 = (if 1 <s fastForwardSpeed s1
                                            then n * fastForwardSpeed s1 else n)
                                  in if 20 <s n1 then 20 else n1)))"
proof -
  from pollEvents_returns obtain s1 where p: "pollEvents events s = Inr s1" by blast
  from pollEvents_sameTiming [OF p] have same: "sameTiming s s1" .
  with loaded obtain c where c: "core s1 = Some c" by (auto simp: sameTiming_def)
  from same have ft: "frameTime s1 = frameTime s" and lt: "lastLoopTime s1 = lastLoopTime s"
    and rf: "renderFirstFrame s1 = renderFirstFrame s" and fr: "framesRun s1 = framesRun s"
    by (simp_all add: sameTiming_def)
  from c fr have fc: "frameCalls c = framesRun s" by (simp add: framesRun_def)
  let ?q = "(frameTime s1 + (now - lastLoopTime s1) + 0.2) / targetFrameTime"
  have q: "?q = numberOfFrames now s" by (simp add: numberOfFrames_def ft lt)
  from range have "\<exists>n. double_to_Sint32 (numberOfFrames now s) = Some n"
    by (rule double_to_Sint32_defined)
  then obtain n where "double_to_Sint32 (numberOfFrames now s) = Some n" by blast
  then have n: "double_to_Sint32 ?q = Some n" by (simp only: q)
  from double_to_Sint32_sint [OF n] q have sn: "sint n = truncation (numberOfFrames now s)" by simp
  show ?thesis
  proof (cases "numberOfFrames now s < 1")
    case True
    then have "sint n < 1" using sn one_le_truncation_iff [of "numberOfFrames now s"] by simp
    from runLoop_idle [OF p c n this]
    have r: "runLoop events now s =
            Inr (s1\<lparr>lastLoopTime := now, frameTime := frameTime s1 + (now - lastLoopTime s1)\<rparr>)" .
    show ?thesis
      by (rule exI [of _ "s1\<lparr>lastLoopTime := now,
                              frameTime := frameTime s1 + (now - lastLoopTime s1)\<rparr>"],
          rule exI [of _ s1], rule exI [of _ n])
        (simp add: True r p sn ft lt rf fr)
  next
    case False
    then have ge: "1 \<le> sint n" using sn one_le_truncation_iff [of "numberOfFrames now s"] by simp
    show ?thesis
    proof (cases "renderFirstFrame s1")
      case True
      from runLoop_first [OF p c n ge True] obtain s' where
        r: "runLoop events now s = Inr s'" "framesRun s' = frameCalls c + 1"
        "\<not> renderFirstFrame s'"
        "frameTime s' = max 0 (frameTime s1 + (now - lastLoopTime s1)
                                 - real_of_int (sint n) * targetFrameTime)"
        by blast
      from True rf have "renderFirstFrame s" by simp
      with \<open>\<not> numberOfFrames now s < 1\<close> r p sn ft lt fc show ?thesis
        by (intro exI [of _ s'] exI [of _ s1] exI [of _ n]) simp
    next
      case nf: False
      from runLoop_later [OF p c n ge nf] obtain s' where
        r: "runLoop events now s = Inr s'"
        "framesRun s' = frameCalls c +
                unat (let n1 = (if 1 <s fastForwardSpeed s1 then n * fastForwardSpeed s1 else n)
                      in if 20 <s n1 then 20 else n1)"
        "\<not> renderFirstFrame s'"
        "frameTime s' = max 0 (frameTime s1 + (now - lastLoopTime s1)
                                 - real_of_int (sint n) * targetFrameTime)"
        by blast
      from nf rf have "\<not> renderFirstFrame s" by simp
      with \<open>\<not> numberOfFrames now s < 1\<close> r p sn ft lt fc show ?thesis
        by (intro exI [of _ s'] exI [of _ s1] exI [of _ n]) simp
    qed
  qed
qed


lemmas run_defs = loadGame_def setupCore_def gbaEngine_def gbaCore_def main_def afterLoad_def
  runLoop_def presentFrame_def runFrame_def runFrames_calls call_def
  targetFrameTime_def double_to_Sint32_def truncation_def numberOfFrames_def
  framesRun_def frameCalls_def frameCalls_replicate
  mCoreConfigSetDefaultValue_def mCoreConfigSetDefaultIntValue_def mCoreConfigGetIntValue_def
  reloadConfigOption_def mSDLResumeAudio_def mSDLPauseAudio_def
  setFastForwardMultiplier_def pauseGame_def resumeGame_def quitGame_def quickReload_def
  word_sless_alt Let_def

lemma loadGame_keeps:
  "frameTime (snd (loadGame eng name s)) = frameTime s"
  "lastLoopTime (snd (loadGame eng name s)) = lastLoopTime s"
  "renderFirstFrame (snd (loadGame eng name s)) = renderFirstFrame s"
  "fastForwardSpeed (snd (loadGame eng name s)) = fastForwardSpeed s"
  by (simp_all add: loadGame_def Let_def split: option.splits prod.splits)

lemma loadGame_success:
  "fst (loadGame eng name s) \<longleftrightarrow> mCoreFind eng name \<noteq> None"
  "core (snd (loadGame eng name s)) = None \<longleftrightarrow> mCoreFind eng name = None"
  by (simp_all add: loadGame_def Let_def split: option.splits prod.splits)

lemma afterLoad_facts:
  "loadGame gbaEngine ''rom.gba'' main = (True, afterLoad)"
  "core afterLoad \<noteq> None"
  "renderFirstFrame afterLoad"
  "frameTime afterLoad = 0"
  "lastLoopTime afterLoad = 0"
  "fastForwardSpeed afterLoad = 1"
  "framesRun afterLoad = 0"
  by (simp_all add: run_defs)

section \<open>The exported functions with and without a session\<close>

lemma without_session:
  assumes "core s = None"
  shows "buttonPress ident s = s" and "buttonUnpress ident s = s"
    and "saveState eng slot s = (False, s)" and "loadState eng slot s = (False, s)"
    and "quitGame s = s" and "core (pauseGame s) = None"
    and "quickReload s = Inl NullCore" and "resumeGame s = Inl NullCore"
  using assms
  by (simp_all add: buttonPress_def buttonUnpress_def saveState_def loadState_def quitGame_def
      pauseGame_def quickReload_def resumeGame_def)

lemma pauseGame_keeps:
  "core (pauseGame s) = core s" "frameTime (pauseGame s) = frameTime s"
  "renderFirstFrame (pauseGame s)" "mainLoopPaused (pauseGame s)"
  "fastForwardSpeed (pauseGame s) = fastForwardSpeed s"
  by (simp_all add: pauseGame_def)

lemma resumeGame_loaded:
  assumes "core s \<noteq> None"
  shows "\<exists>s'. resumeGame s = Inr s' \<and> core s' = core s \<and> frameTime s' = frameTime s
           \<and> renderFirstFrame s' = renderFirstFrame s \<and> \<not> mainLoopPaused s'
           \<and> fastForwardSpeed s' = fastForwardSpeed s"
  using assms by (cases "core s") (simp_all add: resumeGame_def Let_def)

lemma quickReload_loaded:
  assumes "core s \<noteq> None"
  shows "\<exists>s'. quickReload s = Inr s' \<and> core s' \<noteq> None \<and> frameTime s' = frameTime s
           \<and> renderFirstFrame s' \<and> fastForwardSpeed s' = fastForwardSpeed s"
  using assms by (cases "core s") (simp_all add: quickReload_def Let_def)

lemma quitGame_loaded:
  assumes "core s \<noteq> None"
  shows "core (quitGame s) = None \<and> frameTime (quitGame s) = frameTime s
           \<and> renderFirstFrame (quitGame s)"
  using assms by (cases "core s") (simp_all add: quitGame_def)

section \<open>The volume\<close>

text \<open>
  A number below 0 or above 2, or an infinity, is turned away and nothing changes; a
  number from 0 to 2 is converted without fail; and on a loaded session the
  statements after the conversion never leave the renderer as it was.
\<close>

lemma setVolume_number_out_of_range:
  assumes "float_lt vol 0 \<or> float_gt vol 2"
  shows "setVolume vol s = Inr s"
  using assms by (auto simp: setVolume_def)

lemma setVolume_in_range:
  assumes "0 \<le> v" and "v \<le> 2"
  shows "setVolume (Finite v) s = Inr (applyVolume (word_of_int \<lfloor>v * 0x100\<rfloor>) s)"
proof -
  from assms have "0 \<le> v * 0x100" and "v * 0x100 \<le> 512" by simp_all
  then have "0 \<le> \<lfloor>v * 0x100\<rfloor>" and "\<lfloor>v * 0x100\<rfloor> \<le> 512"
    by (simp_all add: floor_le_iff)
  then have "double_to_Sint32 (v * 0x100) = Some (word_of_int \<lfloor>v * 0x100\<rfloor>)"
    using \<open>0 \<le> v * 0x100\<close> by (simp add: double_to_Sint32_def truncation_def)
  with assms show ?thesis
    by (simp add: setVolume_def float_gt_def float_lt_def float_times_0x100_def
        float_to_int_def)
qed

lemma applyVolume_changes:
  assumes "core s = Some c"
  shows "applyVolume volume s \<noteq> s"
proof
  assume "applyVolume volume s = s"
  then have "core (applyVolume volume s) = Some c" using assms by simp
  with assms have "calls (reloadConfigOption ''volume''
                     (mCoreConfigSetDefaultIntValue ''volume'' volume c)) = calls c"
    by (simp add: applyVolume_def)
  then show False
    by (simp add: reloadConfigOption_def call_def mCoreConfigSetDefaultIntValue_def Let_def)
qed

lemma atHalfVolume_facts:
  "setVolume (Finite (1 / 2)) afterLoad = Inr atHalfVolume"
  "core atHalfVolume \<noteq> None"
  "getVolume atHalfVolume = Inr (1 / 2)"
  "\<not> audioPaused (audio atHalfVolume)"
  by (simp_all add: atHalfVolume_def setVolume_def applyVolume_def getVolume_def
      float_gt_def float_lt_def float_times_0x100_def float_to_int_def run_defs)

text \<open>The two values of the claim, -0.1 and 2.1, and the infinities, at half volume.\<close>

lemma setVolume_out_of_range_examples:
  "setVolume (Finite (- 1 / 10)) atHalfVolume = Inr atHalfVolume"
  "setVolume (Finite (21 / 10)) atHalfVolume = Inr atHalfVolume"
  "setVolume PlusInfinity atHalfVolume = Inr atHalfVolume"
  "setVolume MinusInfinity atHalfVolume = Inr atHalfVolume"
  by (simp_all add: setVolume_number_out_of_range float_gt_def float_lt_def)

section \<open>Words\<close>

lemma sint_mult_in_range:
  fixes a b :: cint
  assumes "- (2 ^ 31) \<le> sint a * sint b" and "sint a * sint b < 2 ^ 31"
  shows "sint (a * b) = sint a * sint b"
  using assms by (simp add: sint_word_ariths signed_take_bit_int_eq_self)

lemma sint_pred_positive:
  fixes m :: cint
  assumes "0 < sint m"
  shows "sint (m - 1) = sint m - 1"
proof -
  have "sint m < 2 ^ 31" using sint_lt [of m] by simp
  with assms show ?thesis
    by (simp add: sint_word_ariths signed_take_bit_int_eq_self)
qed

lemma unat_of_nonneg:
  fixes w :: cint
  assumes "0 \<le> sint w"
  shows "unat w = nat (sint w)"
proof -
  have "sint w < 2 ^ 32" using sint_lt [of w] by simp
  with assms have "take_bit 32 (sint w) = sint w" by (simp add: take_bit_int_eq_self)
  then have "uint w = sint w" using uint_sint [of w] by simp
  then show ?thesis by (simp add: unat_eq_nat_uint)
qed

lemma clamped_frames:
  fixes n ff :: cint
  assumes "1 \<le> sint n" and "sint n * sint ff < 2 ^ 31"
  shows "unat (let n1 = (if 1 <s ff then n * ff else n) in if 20 <s n1 then 20 else n1) \<le> 20"
proof -
  define n1 where "n1 = (if 1 <s ff then n * ff else n)"
  have pos: "1 \<le> sint n1"
  proof (cases "1 <s ff")
    case True
    then have ff: "2 \<le> sint ff" by (simp add: word_sless_alt)
    with assms(1) have "1 * 2 \<le> sint n * sint ff" by (intro mult_mono) simp_all
    with assms(2) have "sint (n * ff) = sint n * sint ff" and "1 \<le> sint n * sint ff"
      by (simp_all add: sint_mult_in_range)
    with True show ?thesis by (simp add: n1_def)
  next
    case False
    with assms(1) show ?thesis by (simp add: n1_def)
  qed
  have "unat (if 20 <s n1 then 20 else n1) \<le> 20"
  proof (cases "20 <s n1")
    case True
    then show ?thesis by simp
  next
    case False
    then have "sint n1 \<le> 20" by (simp add: word_sless_alt)
    moreover from pos have "unat n1 = nat (sint n1)" by (intro unat_of_nonneg) simp
    ultimately have "unat n1 \<le> 20" by simp
    with False show ?thesis by simp
  qed
  then show ?thesis unfolding n1_def Let_def .
qed

text \<open>Where the clamp holds: the product of the frame count and the multiplier fits.\<close>

lemma runLoop_at_most_20_frames:
  assumes "core s \<noteq> None" and "\<bar>numberOfFrames now s\<bar> < 2 ^ 31"
    and "pollEvents events s = Inr s1"
    and "truncation (numberOfFrames now s) * sint (fastForwardSpeed s1) < 2 ^ 31"
  shows "\<exists>s'. runLoop events now s = Inr s' \<and> framesRun s' \<le> framesRun s + 20"
proof -
  from runLoop_loaded [OF assms(1,2), of events] obtain s' s2 n where
    r: "runLoop events now s = Inr s'" and p: "pollEvents events s = Inr s2"
    and sn: "sint n = truncation (numberOfFrames now s)"
    and idle: "numberOfFrames now s < 1 \<longrightarrow>
                 framesRun s' = framesRun s \<and> renderFirstFrame s' = renderFirstFrame s
                 \<and> frameTime s' = frameTime s + (now - lastLoopTime s)"
    and busy: "\<not> numberOfFrames now s < 1 \<longrightarrow>
                 \<not> renderFirstFrame s'
                 \<and> frameTime s' = max 0 (frameTime s + (now - lastLoopTime s)
                                            - real_of_int (sint n) * targetFrameTime)
                 \<and> framesRun s' = framesRun s +
                      (if renderFirstFrame s then 1
                       else unat (let n1 = (if 1 <s fastForwardSpeed s2
                                            then n * fastForwardSpeed s2 else n)
                                  in if 20 <s n1 then 20 else n1))"
    by (elim exE conjE) (rule that)
  from p assms(3) have s2: "s2 = s1" by simp
  show ?thesis
  proof (cases "numberOfFrames now s < 1")
    case True
    with idle r show ?thesis by simp
  next
    case False
    then have "1 \<le> sint n" using sn one_le_truncation_iff [of "numberOfFrames now s"] by simp
    moreover from assms(4) sn have "sint n * sint (fastForwardSpeed s1) < 2 ^ 31" by simp
    ultimately have "unat (let n1 = (if 1 <s fastForwardSpeed s1
                                     then n * fastForwardSpeed s1 else n)
                           in if 20 <s n1 then 20 else n1) \<le> 20"
      by (rule clamped_frames)
    with busy False r s2 show ?thesis by auto
  qed
qed

section \<open>The fast-forward multiplier is left alone\<close>

lemma runLoop_speed:
  assumes "runLoop events now s = Inr s'"
    and "\<not> list_ex (\<lambda>e. keysym_sym e = SDLK_f) events"
  shows "fastForwardSpeed s' = fastForwardSpeed s"
proof -
  from pollEvents_returns obtain s1 where p: "pollEvents events s = Inr s1" by blast
  from pollEvents_speed [OF p assms(2)] have "fastForwardSpeed s1 = fastForwardSpeed s" .
  with assms(1) p show ?thesis
    by (auto simp: runLoop_def Let_def presentFrame_simps split: option.splits if_splits)
qed

lemma perform_speed:
  assumes "perform eng x s = Inr s'" and "\<forall>k. x \<noteq> SetFastForwardMultiplier k"
    and "\<not> pressesF x"
  shows "fastForwardSpeed s' = fastForwardSpeed s"
proof (cases x)
  case (LoadGame name)
  with assms(1) show ?thesis by (auto simp: loadGame_keeps)
next
  case QuitGame
  with assms(1) show ?thesis by (auto simp: quitGame_def split: option.splits)
next
  case QuickReload
  with assms(1) show ?thesis by (auto simp: quickReload_def Let_def split: option.splits)
next
  case PauseGame
  with assms(1) show ?thesis by (auto simp: pauseGame_def)
next
  case ResumeGame
  with assms(1) show ?thesis by (auto simp: resumeGame_def Let_def split: option.splits)
next
  case (ButtonPress k)
  with assms(1) show ?thesis by (auto simp: buttonPress_def split: option.splits)
next
  case (ButtonUnpress k)
  with assms(1) show ?thesis by (auto simp: buttonUnpress_def split: option.splits)
next
  case (SetVolume v)
  with assms(1) show ?thesis
    by (auto simp: setVolume_def applyVolume_def split: option.splits if_splits)
next
  case (SetFastForwardMultiplier k)
  with assms(2) show ?thesis by simp
next
  case (SaveStateSlot k)
  with assms(1) show ?thesis by (auto simp: saveState_def split: option.splits)
next
  case (LoadStateSlot k)
  with assms(1) show ?thesis by (auto simp: loadState_def split: option.splits)
next
  case (Tick events now)
  with assms(3) have nf: "\<not> list_ex (\<lambda>e. keysym_sym e = SDLK_f) events"
    by (simp add: pressesF_def)
  show ?thesis
  proof (cases "mainLoopPaused s")
    case True
    with Tick assms(1) show ?thesis by simp
  next
    case False
    with Tick assms(1) have "runLoop events now s = Inr s'" by simp
    then show ?thesis using nf by (rule runLoop_speed)
  qed
qed

text \<open>A stall of five seconds at normal speed: the tick runs 20 frames.\<close>

lemma runLoop_stall_runs_20:
  "map_sum id framesRun
     (perform_all gbaEngine [LoadGame ''rom.gba'', Tick [] 17] main) = Inr 1 \<and>
   map_sum id framesRun
     (perform_all gbaEngine [LoadGame ''rom.gba'', Tick [] 17, Tick [] 5017] main) = Inr 21"
  by (simp add: run_defs)

section \<open>The claims\<close>

subsection \<open>C1: the first tick after Load or Resume\<close>

text \<open>
  C1 as stated fails. \<open>runLoop\<close> returns at \<open>nowFramesInt < 1\<close> before it looks at
  \<open>renderFirstFrame\<close>: the tick that follows a successful load of \<open>rom.gba\<close> from the
  initial state, with the clock still at 0, runs no frame.
\<close>

theorem first_tick_after_load_counterexample:
  "loadGame gbaEngine ''rom.gba'' main = (True, afterLoad) \<and> framesRun afterLoad = 0 \<and>
   map_sum id framesRun (runLoop [] 0 afterLoad) = Inr 0"
  by (simp add: run_defs)

text \<open>
  C1, amended. Take a state reached by a successful \<open>loadGame\<close> from a state whose
  \<open>renderFirstFrame\<close> flag was set (the initial state, or any state after \<open>quitGame\<close>,
  \<open>pauseGame\<close> or \<open>quickReload\<close>), or by \<open>pauseGame\<close> followed by \<open>resumeGame\<close>
  on a loaded session. The next tick returns and runs exactly one frame when the
  frame count it computes, \<open>(frameTime + elapsed + 0.2) / (1000 / 60)\<close>, is at least
  1, however large the elapsed time (within what a \<open>Sint32\<close> can count) and whatever
  the multiplier and the key events; it runs no frame when that count is below 1.
\<close>

theorem first_tick_with_flag_set:
  assumes "(renderFirstFrame s0 \<and> loadGame eng name s0 = (True, s)) \<or>
           (core s0 \<noteq> None \<and> resumeGame (pauseGame s0) = Inr s)"
    and "\<bar>numberOfFrames now s\<bar> < 2 ^ 31"
  shows "\<exists>s'. runLoop events now s = Inr s' \<and>
           framesRun s' = framesRun s + (if 1 \<le> numberOfFrames now s then 1 else 0)"
proof -
  from assms(1) have flag: "renderFirstFrame s" and loaded: "core s \<noteq> None"
  proof -
    from assms(1) have "renderFirstFrame s \<and> core s \<noteq> None"
    proof
      assume a: "renderFirstFrame s0 \<and> loadGame eng name s0 = (True, s)"
      then have s: "s = snd (loadGame eng name s0)" and ok: "fst (loadGame eng name s0)"
        by simp_all
      from ok have "mCoreFind eng name \<noteq> None" by (simp add: loadGame_success)
      then have "core s \<noteq> None" unfolding s by (simp add: loadGame_success)
      moreover from a have "renderFirstFrame s" unfolding s by (simp add: loadGame_keeps)
      ultimately show ?thesis by simp
    next
      assume a: "core s0 \<noteq> None \<and> resumeGame (pauseGame s0) = Inr s"
      then have "core (pauseGame s0) \<noteq> None" by (simp add: pauseGame_keeps)
      from resumeGame_loaded [OF this] a show ?thesis by (auto simp: pauseGame_keeps)
    qed
    then show "renderFirstFrame s" and "core s \<noteq> None" by simp_all
  qed
  from runLoop_loaded [OF loaded assms(2), of events] obtain s' s1 n where
    r: "runLoop events now s = Inr s'" and p: "pollEvents events s = Inr s1"
    and sn: "sint n = truncation (numberOfFrames now s)"
    and idle: "numberOfFrames now s < 1 \<longrightarrow>
                 framesRun s' = framesRun s \<and> renderFirstFrame s' = renderFirstFrame s
                 \<and> frameTime s' = frameTime s + (now - lastLoopTime s)"
    and busy: "\<not> numberOfFrames now s < 1 \<longrightarrow>
                 \<not> renderFirstFrame s'
                 \<and> frameTime s' = max 0 (frameTime s + (now - lastLoopTime s)
                                            - real_of_int (sint n) * targetFrameTime)
                 \<and> framesRun s' = framesRun s +
                      (if renderFirstFrame s then 1
                       else unat (let n1 = (if 1 <s fastForwardSpeed s1
                                            then n * fastForwardSpeed s1 else n)
                                  in if 20 <s n1 then 20 else n1))"
    by (elim exE conjE) (rule that)
  show ?thesis
  proof (cases "numberOfFrames now s < 1")
    case True
    with idle r show ?thesis by simp
  next
    case False
    with busy flag r show ?thesis by simp
  qed
qed

text \<open>Loading \<open>rom.gba\<close> from the initial state, then a tick five seconds later.\<close>

theorem first_tick_with_flag_set_witness:
  "renderFirstFrame main \<and> loadGame gbaEngine ''rom.gba'' main = (True, afterLoad) \<and>
   \<bar>numberOfFrames 5000 afterLoad\<bar> < 2 ^ 31 \<and> 1 \<le> numberOfFrames 5000 afterLoad \<and>
   (\<exists>s'. runLoop [] 5000 afterLoad = Inr s' \<and> framesRun s' = framesRun afterLoad + 1)"
proof -
  have rf: "renderFirstFrame main" by (simp add: main_def)
  have h1: "(renderFirstFrame main \<and> loadGame gbaEngine ''rom.gba'' main = (True, afterLoad)) \<or>
            (core main \<noteq> None \<and> resumeGame (pauseGame main) = Inr afterLoad)"
    by (simp add: afterLoad_facts rf)
  have h2: "\<bar>numberOfFrames 5000 afterLoad\<bar> < 2 ^ 31"
    by (simp add: numberOfFrames_def afterLoad_facts targetFrameTime_def)
  have h3: "1 \<le> numberOfFrames 5000 afterLoad"
    by (simp add: numberOfFrames_def afterLoad_facts targetFrameTime_def)
  from first_tick_with_flag_set [OF h1 h2, of "[]"] h3
  have "\<exists>s'. runLoop [] 5000 afterLoad = Inr s' \<and> framesRun s' = framesRun afterLoad + 1"
    by simp
  with h2 h3 show ?thesis by (simp add: afterLoad_facts rf)
qed

subsection \<open>C2: session functions without a session\<close>

text \<open>
  C2. With no core loaded, \<open>buttonPress\<close> leaves the renderer as it is, \<open>saveState\<close>
  returns false and \<open>pauseGame\<close> touches no core. \<open>quickReload\<close> has no null check:
  it sets \<open>renderFirstFrame\<close> and calls \<open>reset\<close> through the null core. Evaluated in
  the initial state.
\<close>

theorem quickReload_without_session:
  "core main = None \<and> quickReload main = Inl NullCore \<and>
   buttonPress 0 main = main \<and> saveState gbaEngine 1 main = (False, main) \<and>
   core (pauseGame main) = None"
  by (simp add: main_def quickReload_def buttonPress_def saveState_def pauseGame_def)

subsection \<open>C3: the pacing state across the lifecycle\<close>

text \<open>
  C3 as stated fails. No exported function writes \<open>frameTime\<close>, and \<open>loadGame\<close> does
  not write \<open>renderFirstFrame\<close>: after loading, one tick of 20 ms and loading again,
  the accumulator holds 10/3 ms and the flag is false.
\<close>

theorem pacing_state_after_load_counterexample:
  "map_sum id frameTime
     (perform_all gbaEngine [LoadGame ''rom.gba'', Tick [] 20, LoadGame ''rom.gba''] main)
     = Inr (10 / 3) \<and>
   map_sum id renderFirstFrame
     (perform_all gbaEngine [LoadGame ''rom.gba'', Tick [] 20, LoadGame ''rom.gba''] main)
     = Inr False"
  by (simp add: run_defs)

text \<open>
  C3, amended. On a loaded session \<open>quickReload\<close>, \<open>pauseGame\<close> followed by
  \<open>resumeGame\<close>, and \<open>quitGame\<close> each leave \<open>renderFirstFrame\<close> true, and
  \<open>loadGame\<close> keeps a flag that is set, as it is in the initial state and after
  \<open>quitGame\<close>. None of \<open>loadGame\<close>, \<open>quickReload\<close>, \<open>pauseGame\<close>,
  \<open>resumeGame\<close> and \<open>quitGame\<close> changes the accumulator \<open>frameTime\<close>.
\<close>

theorem pacing_state_after_lifecycle:
  assumes "core s \<noteq> None"
  shows "(\<exists>s'. quickReload s = Inr s' \<and> renderFirstFrame s' \<and> frameTime s' = frameTime s) \<and>
         (\<exists>s'. resumeGame (pauseGame s) = Inr s' \<and> renderFirstFrame s'
                \<and> frameTime s' = frameTime s) \<and>
         renderFirstFrame (quitGame s) \<and> frameTime (quitGame s) = frameTime s \<and>
         frameTime (snd (loadGame eng name s0)) = frameTime s0 \<and>
         (renderFirstFrame s0 \<longrightarrow> renderFirstFrame (snd (loadGame eng name s0)))"
proof -
  from quickReload_loaded [OF assms]
  have a: "\<exists>s'. quickReload s = Inr s' \<and> renderFirstFrame s' \<and> frameTime s' = frameTime s"
    by blast
  from assms have "core (pauseGame s) \<noteq> None" by (simp add: pauseGame_keeps)
  from resumeGame_loaded [OF this]
  have b: "\<exists>s'. resumeGame (pauseGame s) = Inr s' \<and> renderFirstFrame s'
                \<and> frameTime s' = frameTime s"
    by (auto simp: pauseGame_keeps)
  from quitGame_loaded [OF assms]
  have c: "renderFirstFrame (quitGame s)" "frameTime (quitGame s) = frameTime s" by simp_all
  from a b c show ?thesis by (simp add: loadGame_keeps)
qed

text \<open>
  The session that \<open>rom.gba\<close> gives, accumulator at 0, and the load that made it from
  the initial state.
\<close>

theorem pacing_state_after_lifecycle_witness:
  "core afterLoad \<noteq> None \<and>
   (\<exists>s'. quickReload afterLoad = Inr s' \<and> renderFirstFrame s' \<and> frameTime s' = 0) \<and>
   (\<exists>s'. resumeGame (pauseGame afterLoad) = Inr s' \<and> renderFirstFrame s' \<and> frameTime s' = 0) \<and>
   renderFirstFrame (quitGame afterLoad) \<and> frameTime (quitGame afterLoad) = 0 \<and>
   renderFirstFrame main \<and> frameTime (snd (loadGame gbaEngine ''rom.gba'' main)) = 0 \<and>
   renderFirstFrame (snd (loadGame gbaEngine ''rom.gba'' main))"
proof -
  have m: "renderFirstFrame main" "frameTime main = 0" by (simp_all add: main_def)
  from pacing_state_after_lifecycle [of afterLoad gbaEngine "''rom.gba''" main] m
  show ?thesis by (simp add: afterLoad_facts)
qed

subsection \<open>C4: when Load fails\<close>

text \<open>
  C4 as stated fails. The result of \<open>mCoreLoadFile\<close> is not looked at: with an engine
  that finds the core for \<open>rom.gba\<close> and then cannot load the image, \<open>loadGame\<close>
  returns true and the session is set.
\<close>

theorem loadGame_broken_image_counterexample:
  "\<not> mCoreLoadFile brokenImageEngine ''rom.gba'' \<and>
   fst (loadGame brokenImageEngine ''rom.gba'' main) \<and>
   core (snd (loadGame brokenImageEngine ''rom.gba'' main)) \<noteq> None"
  by (simp add: brokenImageEngine_def gbaEngine_def loadGame_success)

text \<open>
  C4, amended. \<open>loadGame\<close> returns failure exactly when \<open>mCoreFind\<close> yields no core
  for the name, and exactly then no session is set afterwards, whatever was loaded
  before. Once the core exists \<open>loadGame\<close> returns success with the session set,
  whether or not the program image could be loaded.
\<close>

theorem loadGame_fails_without_core:
  "(fst (loadGame eng name s) \<longleftrightarrow> mCoreFind eng name \<noteq> None) \<and>
   (core (snd (loadGame eng name s)) = None \<longleftrightarrow> mCoreFind eng name = None)"
  by (simp add: loadGame_success)

text \<open>A file the engine does not know, asked for while \<open>rom.gba\<close> is running.\<close>

theorem loadGame_fails_without_core_witness:
  "mCoreFind gbaEngine ''missing.gba'' = None \<and>
   \<not> fst (loadGame gbaEngine ''missing.gba'' afterLoad) \<and>
   core (snd (loadGame gbaEngine ''missing.gba'' afterLoad)) = None"
  using loadGame_fails_without_core [of gbaEngine "''missing.gba''" afterLoad]
  by (simp add: gbaEngine_def)

subsection \<open>C5: the accumulator after a tick\<close>

text \<open>
  C5. A tick with a core loaded returns (as long as the frame count fits a \<open>Sint32\<close>),
  and whenever it ran at least one frame the accumulator \<open>frameTime\<close> afterwards lies
  in [0, 1000/60). It is never negative after a tick: with an accumulator that was not
  negative before and a clock that did not run backwards, it lies in [0, 1000/60) after
  every tick, whether frames ran or not.
\<close>

theorem runLoop_accumulator_bounds:
  assumes "core s \<noteq> None" and "\<bar>numberOfFrames now s\<bar> < 2 ^ 31"
  shows "\<exists>s'. runLoop events now s = Inr s' \<and>
           (framesRun s < framesRun s' \<longrightarrow> 0 \<le> frameTime s' \<and> frameTime s' < 1000 / 60) \<and>
           (0 \<le> frameTime s \<and> lastLoopTime s \<le> now
              \<longrightarrow> 0 \<le> frameTime s' \<and> frameTime s' < 1000 / 60)"
proof -
  let ?x = "frameTime s + (now - lastLoopTime s)"
  have q: "numberOfFrames now s = (?x + 0.2) / targetFrameTime"
    by (simp add: numberOfFrames_def)
  have T: "targetFrameTime = 1000 / 60" by (simp add: targetFrameTime_def)
  from runLoop_loaded [OF assms, of events] obtain s' s1 n where
    r: "runLoop events now s = Inr s'" and p: "pollEvents events s = Inr s1" and sn: "sint n = truncation (numberOfFrames now s)"
    and idle: "numberOfFrames now s < 1 \<longrightarrow>
                 framesRun s' = framesRun s \<and> renderFirstFrame s' = renderFirstFrame s
                 \<and> frameTime s' = ?x"
    and busy: "\<not> numberOfFrames now s < 1 \<longrightarrow>
                 \<not> renderFirstFrame s'
                 \<and> frameTime s' = max 0 (?x - real_of_int (sint n) * targetFrameTime)
                 \<and> framesRun s' = framesRun s +
                      (if renderFirstFrame s then 1
                       else unat (let n1 = (if 1 <s fastForwardSpeed s1
                                            then n * fastForwardSpeed s1 else n)
                                  in if 20 <s n1 then 20 else n1))"
    by (elim exE conjE) (rule that)
  show ?thesis
  proof (cases "numberOfFrames now s < 1")
    case True
    then have "truncation ((?x + 0.2) / targetFrameTime) < 1"
      using one_le_truncation_iff [of "numberOfFrames now s"] q by simp
    then have "?x < targetFrameTime - 0.2" by (rule accumulator_idle)
    then have up: "?x < 1000 / 60" by (simp add: T)
    from idle True have same: "framesRun s' = framesRun s" and ft: "frameTime s' = ?x"
      by simp_all
    from ft up have "0 \<le> frameTime s \<and> lastLoopTime s \<le> now
                       \<longrightarrow> 0 \<le> frameTime s' \<and> frameTime s' < 1000 / 60"
      by simp
    with same r show ?thesis by simp
  next
    case False
    then have "1 \<le> truncation ((?x + 0.2) / targetFrameTime)"
      using one_le_truncation_iff [of "numberOfFrames now s"] q by simp
    from accumulator_after_frames [OF this] sn q
    have "?x - real_of_int (sint n) * targetFrameTime < targetFrameTime - 0.2" by simp
    then have up: "?x - real_of_int (sint n) * targetFrameTime < 1000 / 60" by (simp add: T)
    from busy False
    have ft: "frameTime s' = max 0 (?x - real_of_int (sint n) * targetFrameTime)" by simp
    define t where "t = ?x - real_of_int (sint n) * targetFrameTime"
    from ft up have "frameTime s' = max 0 t" and "t < 1000 / 60" by (simp_all add: t_def)
    then have "0 \<le> frameTime s' \<and> frameTime s' < 1000 / 60" by (simp add: max_def)
    with r show ?thesis by simp
  qed
qed

text \<open>The first tick after loading \<open>rom.gba\<close>, five seconds on the clock.\<close>

theorem runLoop_accumulator_bounds_witness:
  "core afterLoad \<noteq> None \<and> \<bar>numberOfFrames 5000 afterLoad\<bar> < 2 ^ 31 \<and>
   (\<exists>s'. runLoop [] 5000 afterLoad = Inr s' \<and> framesRun afterLoad < framesRun s' \<and>
         0 \<le> frameTime afterLoad \<and> lastLoopTime afterLoad \<le> 5000 \<and>
         0 \<le> frameTime s' \<and> frameTime s' < 1000 / 60)"
proof -
  have h1: "core afterLoad \<noteq> None" by (rule afterLoad_facts)
  have h2: "\<bar>numberOfFrames 5000 afterLoad\<bar> < 2 ^ 31"
    by (simp add: numberOfFrames_def afterLoad_facts targetFrameTime_def)
  from runLoop_accumulator_bounds [OF h1 h2, of "[]"] obtain s' where
    r: "runLoop [] 5000 afterLoad = Inr s'"
    and b: "0 \<le> frameTime afterLoad \<and> lastLoopTime afterLoad \<le> 5000
              \<longrightarrow> 0 \<le> frameTime s' \<and> frameTime s' < 1000 / 60"
    by blast
  have "map_sum id framesRun (runLoop [] 5000 afterLoad) = Inr 1"
    by (simp add: run_defs)
  with r have "framesRun s' = 1" by simp
  with h1 h2 r b show ?thesis by (simp add: afterLoad_facts)
qed

subsection \<open>C6: the ceiling of 20 frames\<close>

text \<open>
  C6. The clamp \<open>nowFramesInt > 20\<close> is a signed comparison made after the
  multiplication by \<open>fastForwardSpeed\<close>, and the loop counter is a \<open>Uint32\<close>. A
  product that leaves the range of \<open>Sint32\<close> escapes the clamp: with the multiplier
  set to 0x40000000 and 34 ms elapsed, the count 2 becomes 0x80000000, which is
  negative for the clamp and 2147483648 for the loop. The session has run one frame
  before that tick and 1 + 2147483648 after it. Where the product fits,
  \<open>runLoop_at_most_20_frames\<close> gives the ceiling.
\<close>

theorem runLoop_multiplier_overflow:
  "map_sum id framesRun
     (perform_all gbaEngine
        [LoadGame ''rom.gba'', Tick [] 17, SetFastForwardMultiplier 0x40000000] main) = Inr 1 \<and>
   map_sum id framesRun
     (perform_all gbaEngine
        [LoadGame ''rom.gba'', Tick [] 17, SetFastForwardMultiplier 0x40000000, Tick [] 51] main)
     = Inr (1 + 2147483648)"
  by (simp add: run_defs)

subsection \<open>C7: a volume out of range\<close>

text \<open>
  C7. The range test of \<open>setVolume\<close> turns away every number below 0 or above 2
  (\<open>setVolume_number_out_of_range\<close>), but it is written as two ordered comparisons,
  and NaN, which lies in no interval, fails both. The call goes on to
  \<open>(int) (vol * 0x100)\<close>, which is undefined for NaN, and to the statements after it.
  Evaluated on the session at half volume: the call does not return the renderer
  unchanged; with the value 0 that a saturating conversion gives, the audio is paused
  and \<open>getVolume\<close> answers 0; with the value \<open>INT_MIN\<close> that a guarded conversion
  gives, \<open>getVolume\<close> answers -8388608.
\<close>

theorem setVolume_nan_passes_range_test:
  "\<not> float_gt NaN 2 \<and> \<not> float_lt NaN 0 \<and>
   getVolume atHalfVolume = Inr (1 / 2) \<and> \<not> audioPaused (audio atHalfVolume) \<and>
   setVolume NaN atHalfVolume = Inl ConversionOutOfRange \<and>
   getVolume (applyVolume 0 atHalfVolume) = Inr 0 \<and>
   audioPaused (audio (applyVolume 0 atHalfVolume)) \<and>
   getVolume (applyVolume (- 2147483648) atHalfVolume) = Inr (- 8388608)"
  by (simp add: atHalfVolume_def setVolume_def applyVolume_def getVolume_def
      float_gt_def float_lt_def float_times_0x100_def float_to_int_def run_defs)

subsection \<open>C8: the fast-forward multiplier\<close>

text \<open>
  C8. On a loaded session \<open>setFastForwardMultiplier m\<close> with \<open>m > 0\<close> returns a
  renderer whose \<open>getFastForwardMultiplier\<close> is \<open>m\<close> and whose audio \<open>fpsTarget\<close> is
  \<open>60 * m\<close>; the multiplier then stays \<open>m\<close> across every operation of the host that is
  neither another \<open>setFastForwardMultiplier\<close> nor a tick that delivers an event of the
  fast-forward key. With \<open>m \<le> 0\<close> the call returns the renderer unchanged.
\<close>

theorem setFastForwardMultiplier_sets_speed:
  "(0 <s m \<and> core s \<noteq> None \<longrightarrow>
      (\<exists>s'. setFastForwardMultiplier m s = Inr s' \<and> getFastForwardMultiplier s' = m \<and>
            fpsTarget (audio s') = 60 * real_of_int (sint m) \<and>
            (\<forall>x s''. perform eng x s' = Inr s'' \<and> (\<forall>k. x \<noteq> SetFastForwardMultiplier k)
                        \<and> \<not> pressesF x
                      \<longrightarrow> getFastForwardMultiplier s'' = m))) \<and>
   (\<not> 0 <s m \<longrightarrow> setFastForwardMultiplier m s = Inr s)"
proof (intro conjI impI)
  assume a: "0 <s m \<and> core s \<noteq> None"
  then obtain c where c: "core s = Some c" by auto
  define s' where "s' = s\<lparr>fastForwardSpeed := m,
      audio := (audio s)\<lparr>fpsTarget := 60 * real_of_int (sint m)\<rparr>,
      core := Some (reloadConfigOption ''frameskip''
                      (mCoreConfigSetDefaultIntValue ''frameskip'' (m - 1) c))\<rparr>"
  from a c have r: "setFastForwardMultiplier m s = Inr s'"
    by (simp add: setFastForwardMultiplier_def s'_def Let_def)
  have sp: "fastForwardSpeed s' = m" and fps: "fpsTarget (audio s') = 60 * real_of_int (sint m)"
    by (simp_all add: s'_def)
  have keep: "\<forall>x s''. perform eng x s' = Inr s'' \<and> (\<forall>k. x \<noteq> SetFastForwardMultiplier k)
                        \<and> \<not> pressesF x
                      \<longrightarrow> getFastForwardMultiplier s'' = m"
    using perform_speed [of eng _ s'] sp by (auto simp: getFastForwardMultiplier_def)
  from r sp fps keep
  show "\<exists>s'. setFastForwardMultiplier m s = Inr s' \<and> getFastForwardMultiplier s' = m \<and>
            fpsTarget (audio s') = 60 * real_of_int (sint m) \<and>
            (\<forall>x s''. perform eng x s' = Inr s'' \<and> (\<forall>k. x \<noteq> SetFastForwardMultiplier k)
                        \<and> \<not> pressesF x
                      \<longrightarrow> getFastForwardMultiplier s'' = m)"
    by (intro exI [of _ s']) (simp add: getFastForwardMultiplier_def)
next
  assume "\<not> 0 <s m"
  then show "setFastForwardMultiplier m s = Inr s"
    by (simp add: setFastForwardMultiplier_def)
qed

text \<open>Multiplier 3 on the loaded session, a pause after it, and multiplier 0.\<close>

theorem setFastForwardMultiplier_sets_speed_witness:
  "0 <s (3 :: cint) \<and> core afterLoad \<noteq> None \<and>
   (\<exists>s'. setFastForwardMultiplier 3 afterLoad = Inr s' \<and> getFastForwardMultiplier s' = 3 \<and>
         fpsTarget (audio s') = 180 \<and>
         getFastForwardMultiplier (pauseGame s') = 3) \<and>
   \<not> 0 <s (0 :: cint) \<and> setFastForwardMultiplier 0 afterLoad = Inr afterLoad"
proof -
  have h: "0 <s (3 :: cint) \<and> core afterLoad \<noteq> None"
    by (simp add: word_sless_alt afterLoad_facts)
  have z: "\<not> 0 <s (0 :: cint)" by (simp add: word_sless_alt)
  from setFastForwardMultiplier_sets_speed [of 3 afterLoad gbaEngine] h
  obtain s' where r: "setFastForwardMultiplier 3 afterLoad = Inr s'"
    and g: "getFastForwardMultiplier s' = 3"
    and f: "fpsTarget (audio s') = 60 * real_of_int (sint (3 :: cint))"
    and k: "\<forall>x s''. perform gbaEngine x s' = Inr s'' \<and> (\<forall>k. x \<noteq> SetFastForwardMultiplier k)
                        \<and> \<not> pressesF x
                      \<longrightarrow> getFastForwardMultiplier s'' = 3"
    by blast
  from k have "perform gbaEngine PauseGame s' = Inr (pauseGame s') \<and>
                 (\<forall>k. PauseGame \<noteq> SetFastForwardMultiplier k) \<and> \<not> pressesF PauseGame
               \<longrightarrow> getFastForwardMultiplier (pauseGame s') = 3"
    by blast
  then have p: "getFastForwardMultiplier (pauseGame s') = 3" by (simp add: pressesF_def)
  from f have f': "fpsTarget (audio s') = 180" by simp
  from setFastForwardMultiplier_sets_speed [of 0 afterLoad gbaEngine] z
  have n: "setFastForwardMultiplier 0 afterLoad = Inr afterLoad" by blast
  from h z r g f' p n show ?thesis by blast
qed

subsection \<open>C9: the fast-forward key\<close>

text \<open>
  C9. For a key event whose keysym is \<open>f\<close>, whatever its modifiers,
  \<open>handleKeypressCore\<close> returns the renderer with nothing changed but
  \<open>fastForwardSpeed\<close>, which is 2 after a key-down and 1 after a key-up; the core, and
  with it the pressed keys, is as before, so no key was translated. On a loaded
  session this is what the event loop of \<open>runLoop\<close> does with the event.
\<close>

theorem fast_forward_key_intercepted:
  assumes "keysym_sym event = SDLK_f"
  shows "\<exists>s'. handleKeypressCore event s = Inr s' \<and>
           s' = s\<lparr>fastForwardSpeed := fastForwardSpeed s'\<rparr> \<and> core s' = core s \<and>
           (etype event = SDL_KEYDOWN \<longrightarrow> fastForwardSpeed s' = 2) \<and>
           (etype event = SDL_KEYUP \<longrightarrow> fastForwardSpeed s' = 1) \<and>
           (core s \<noteq> None \<and> (etype event = SDL_KEYDOWN \<or> etype event = SDL_KEYUP)
              \<longrightarrow> pollEvents [event] s = Inr s')"
  using assms by (simp add: handleKeypressCore_def SDL_KEYDOWN_def SDL_KEYUP_def)

text \<open>The key pressed and released with the left Ctrl held, which the filter would refuse.\<close>

theorem fast_forward_key_intercepted_witness:
  "keysym_sym \<lparr>etype = SDL_KEYDOWN, keysym_sym = SDLK_f, keysym_mod = KMOD_LCTRL\<rparr> = SDLK_f \<and>
   KMOD_LCTRL AND NOT (KMOD_NUM OR KMOD_CAPS) \<noteq> 0 \<and>
   core afterLoad \<noteq> None \<and>
   map_sum id fastForwardSpeed
     (pollEvents [\<lparr>etype = SDL_KEYDOWN, keysym_sym = SDLK_f, keysym_mod = KMOD_LCTRL\<rparr>]
        afterLoad) = Inr 2 \<and>
   map_sum id fastForwardSpeed
     (handleKeypressCore \<lparr>etype = SDL_KEYUP, keysym_sym = SDLK_f, keysym_mod = KMOD_LCTRL\<rparr>
        (afterLoad\<lparr>fastForwardSpeed := 2\<rparr>)) = Inr 1 \<and>
   map_sum id core
     (handleKeypressCore \<lparr>etype = SDL_KEYUP, keysym_sym = SDLK_f, keysym_mod = KMOD_LCTRL\<rparr>
        (afterLoad\<lparr>fastForwardSpeed := 2\<rparr>)) = Inr (core afterLoad)"
proof -
  let ?down = "\<lparr>etype = SDL_KEYDOWN, keysym_sym = SDLK_f, keysym_mod = KMOD_LCTRL\<rparr>"
  let ?up = "\<lparr>etype = SDL_KEYUP, keysym_sym = SDLK_f, keysym_mod = KMOD_LCTRL\<rparr>"
  have m: "KMOD_LCTRL AND NOT (KMOD_NUM OR KMOD_CAPS) \<noteq> 0"
    by (simp add: KMOD_LCTRL_def KMOD_NUM_def KMOD_CAPS_def)
  have c: "core afterLoad \<noteq> None" by (rule afterLoad_facts)
  have kd: "keysym_sym ?down = SDLK_f" and ku: "keysym_sym ?up = SDLK_f" by simp_all
  from fast_forward_key_intercepted [OF kd, of afterLoad] c
  obtain s1 where "pollEvents [?down] afterLoad = Inr s1" and "fastForwardSpeed s1 = 2"
    by auto
  then have d: "map_sum id fastForwardSpeed (pollEvents [?down] afterLoad) = Inr 2" by simp
  from fast_forward_key_intercepted [OF ku, of "afterLoad\<lparr>fastForwardSpeed := 2\<rparr>"]
  obtain s2 where r: "handleKeypressCore ?up (afterLoad\<lparr>fastForwardSpeed := 2\<rparr>) = Inr s2"
    and e: "core s2 = core (afterLoad\<lparr>fastForwardSpeed := 2\<rparr>)"
    and f: "fastForwardSpeed s2 = 1"
    by auto
  from e have "core s2 = core afterLoad" by simp
  with r f have u: "map_sum id fastForwardSpeed
        (handleKeypressCore ?up (afterLoad\<lparr>fastForwardSpeed := 2\<rparr>)) = Inr 1"
    and k: "map_sum id core
        (handleKeypressCore ?up (afterLoad\<lparr>fastForwardSpeed := 2\<rparr>)) = Inr (core afterLoad)"
    by simp_all
  from kd m c d u k show ?thesis by blast
qed

subsection \<open>C10: the frameskip option\<close>

text \<open>
  C10. On a loaded session \<open>setFastForwardMultiplier m\<close> with \<open>m > 0\<close> sets the
  configuration default \<open>frameskip\<close> to \<open>m - 1\<close>, which does not wrap, and then calls
  the core's \<open>reloadConfigOption\<close> for \<open>frameskip\<close> as its one call into the core; the
  core's options then hold \<open>m - 1\<close>. For \<open>m = 1\<close> that is 0.
\<close>

theorem setFastForwardMultiplier_frameskip:
  assumes "0 <s m" and "core s = Some c"
  shows "\<exists>s' c'. setFastForwardMultiplier m s = Inr s' \<and> core s' = Some c' \<and>
           config_int c' ''frameskip'' = Some (m - 1) \<and> sint (m - 1) = sint m - 1 \<and>
           calls c' = calls c @ [ReloadConfigOption ''frameskip''] \<and>
           opts_frameskip c' = m - 1"
proof -
  from assms(1) have "0 < sint m" by (simp add: word_sless_alt)
  then have "sint (m - 1) = sint m - 1" by (rule sint_pred_positive)
  with assms show ?thesis
    by (simp add: setFastForwardMultiplier_def Let_def reloadConfigOption_def call_def
        mCoreConfigSetDefaultIntValue_def mCoreConfigGetIntValue_def)
qed

text \<open>Back to normal speed on the loaded session: frameskip 0.\<close>

theorem setFastForwardMultiplier_frameskip_witness:
  "0 <s (1 :: cint) \<and> core afterLoad = Some (the (core afterLoad)) \<and>
   (\<exists>s' c'. setFastForwardMultiplier 1 afterLoad = Inr s' \<and> core s' = Some c' \<and>
        config_int c' ''frameskip'' = Some 0 \<and>
        calls c' = calls (the (core afterLoad)) @ [ReloadConfigOption ''frameskip''] \<and>
        opts_frameskip c' = 0)"
proof -
  have h1: "0 <s (1 :: cint)" by (simp add: word_sless_alt)
  have h2: "core afterLoad = Some (the (core afterLoad))"
    using afterLoad_facts(2) by simp
  from setFastForwardMultiplier_frameskip [OF h1 h2] h1 h2 show ?thesis by simp
qed

end
